theory Spec2Isabelle
  imports Complex_Main
begin

section \<open>The weights handler of the master (src/master/weights_handler.cpp)\<close>

text \<open>
  The handler serves the master's weights endpoint. \<open>update\<close> parses and validates a
  PUT request, asks the authorizer, and continues in \<open>_update\<close>, which writes the
  registry, stores the weights, notifies the allocator and calls \<open>rescindOffers\<close>.
  The embedding passes the master's state explicitly and returns it updated. A failed
  \<open>CHECK\<close> aborts the process: it is the error value of the result type. The
  continuations hung on futures (\<open>.then(defer(master->self(), ...))\<close>) run on the
  master's own actor; they are composed sequentially here, with the authorizer's and
  the registrar's answers taken as already available.
\<close>

subsection \<open>Data\<close>

text \<open>
  A weight is a C++ \<open>double\<close>. Only its comparison with zero is used by the handler,
  so a double is a real number, an infinity or a NaN, and \<open>weight() <= 0\<close> is the
  IEEE comparison: false for a NaN.
\<close>

datatype double = Finite real | PosInf | NegInf | NaN

fun le_zero :: "double \<Rightarrow> bool" where
  "le_zero (Finite x) = (x \<le> 0)"
| "le_zero NegInf = True"
| "le_zero PosInf = False"
| "le_zero NaN = False"

text \<open>The protobuf message \<open>WeightInfo\<close>: a role and its weight.\<close>

record WeightInfo =
  role :: string
  weight :: double

text \<open>
  A resource vector is carried by an offer and handed back to the allocator unchanged;
  it is a list of named scalar quantities.
\<close>

type_synonym Resources = "(string \<times> real) list"

record Offer =
  offer_id :: string
  offer_framework_id :: string
  offer_slave_id :: string
  offer_resources :: Resources

text \<open>A registered agent with the offers outstanding on it (\<open>slave->offers\<close>).\<close>

record Slave =
  slave_id :: string
  offers :: "Offer list"

text \<open>
  The calls the handler makes on the allocator, in order. The allocator is a plugin
  behind an interface, so the embedding records each call with its arguments.
\<close>

datatype AllocatorCall =
  UpdateWeights "WeightInfo list"
| RecoverResources string string Resources

text \<open>A message the master sends to a framework: the rescission of one of its offers.\<close>

datatype Message = RescindResourceOfferMessage string string

text \<open>
  The part of the master's state the handler reads and writes: the weight table
  (\<open>master->weights\<close>), the roles that have a registered framework
  (\<open>master->activeRoles\<close>), the registered agents (\<open>master->slaves.registered\<close>),
  the role of each registered framework, the role whitelist as its membership test
  (\<open>master->isWhitelistedRole\<close>, declared in master.hpp), the calls made on the
  allocator and the messages sent.
\<close>

record Master =
  weights :: "string \<rightharpoonup> double"
  activeRoles :: "string set"
  registered :: "Slave list"
  framework_role :: "string \<rightharpoonup> string"
  isWhitelistedRole :: "string \<Rightarrow> bool"
  allocator_calls :: "AllocatorCall list"
  sent :: "Message list"

text \<open>An HTTP request, as far as the handler looks at it.\<close>

record Request =
  request_method :: string
  request_body :: string

datatype JSON =
  JNull
| JBoolean bool
| JNumber double
| JString string
| JArray "JSON list"
| JObject "(string \<times> JSON) list"

text \<open>
  Why a request is refused. The handler formats these into the body of its
  \<open>BadRequest\<close>; the embedding keeps the parts of the message.
\<close>

datatype BadReason =
  ParseFailed string string
| ConvertFailed string string
| InvalidRole string string
| UnknownRole string
| InvalidWeight string double

datatype Response = OK | BadRequest BadReason | Forbidden

datatype Abort = CheckFailed

datatype Action = UPDATE_WEIGHT_WITH_ROLE | GET_WEIGHT_WITH_ROLE

record AuthorizationRequest =
  auth_action :: Action
  auth_subject :: "string option"
  auth_object :: "string option"

text \<open>
  The collaborators of the handler whose code lies outside the handler's file, taken as
  parameters: the JSON parser and the protobuf conversion of stout, \<open>strings::trim\<close>,
  \<open>roles::validate\<close> (which returns an error message for an invalid role), the
  authorizer if one is configured, and the registrar's answer to the
  \<open>UpdateWeights\<close> operation.
\<close>

record Env =
  json_parse :: "string \<Rightarrow> string + JSON list"
  protobuf_parse :: "JSON list \<Rightarrow> string + WeightInfo list"
  strings_trim :: "string \<Rightarrow> string"
  roles_validate :: "string \<Rightarrow> string option"
  authorizer :: "(AuthorizationRequest \<Rightarrow> bool) option"
  registrar_apply :: "WeightInfo list \<Rightarrow> bool"

subsection \<open>rescindOffers\<close>

text \<open>
  The first loop of \<open>rescindOffers\<close>: each updated role is checked against the
  whitelist (a failed \<open>CHECK\<close> aborts), and the loop stops at the first role that has
  a registered framework.
\<close>

fun rescind_needed :: "Master \<Rightarrow> WeightInfo list \<Rightarrow> Abort + bool" where
  "rescind_needed m [] = Inr False"
| "rescind_needed m (w # ws) =
     (if \<not> isWhitelistedRole m (role w) then Inl CheckFailed
      else if role w \<in> activeRoles m then Inr True
      else rescind_needed m ws)"

text \<open>
  \<open>master->allocator->recoverResources(frameworkId, slaveId, resources, None())\<close>.
\<close>

definition recoverResources :: "Master \<Rightarrow> Offer \<Rightarrow> Master" where
  "recoverResources m offer =
     m\<lparr>allocator_calls := allocator_calls m @
        [RecoverResources (offer_framework_id offer) (offer_slave_id offer)
           (offer_resources offer)]\<rparr>"

text \<open>
  Modelled from the spec: \<open>Master::removeOffer\<close> is defined in master.cpp, which is not
  among the sources. By the spec an offer exists until it is rescinded, a rescission is
  a withdrawal initiated by the coordinator, and an agent holds the set of its
  outstanding offers: the offer is taken out of the offers of the agent it names and,
  when \<open>rescind\<close> is set, the framework that owns it is told.
\<close>

definition erase_offer :: "Offer \<Rightarrow> Slave \<Rightarrow> Slave" where
  "erase_offer offer s =
     (if slave_id s = offer_slave_id offer
      then s\<lparr>offers := removeAll offer (offers s)\<rparr> else s)"

definition removeOffer :: "Master \<Rightarrow> Offer \<Rightarrow> bool \<Rightarrow> Master" where
  "removeOffer m offer rescind =
     m\<lparr>registered := map (erase_offer offer) (registered m),
       sent := sent m @
         (if rescind
          then [RescindResourceOfferMessage (offer_framework_id offer) (offer_id offer)]
          else [])\<rparr>"

text \<open>
  The inner loop, over a copy of one agent's offers (\<open>utils::copy(slave->offers)\<close>).
\<close>

fun rescind_each :: "Master \<Rightarrow> Offer list \<Rightarrow> Master" where
  "rescind_each m [] = m"
| "rescind_each m (offer # rest) =
     rescind_each (removeOffer (recoverResources m offer) offer True) rest"

text \<open>
  The outer loop, over the registered agents. The table of agents does not change
  during the loop, but the offers of an agent are read when its turn comes: the loop
  runs over the agents' ids and looks each agent up in the current state.
\<close>

definition find_slave :: "Master \<Rightarrow> string \<Rightarrow> Slave option" where
  "find_slave m sid = find (\<lambda>s. slave_id s = sid) (registered m)"

fun rescind_slaves :: "Master \<Rightarrow> string list \<Rightarrow> Master" where
  "rescind_slaves m [] = m"
| "rescind_slaves m (sid # sids) =
     (case find_slave m sid of
        None \<Rightarrow> rescind_slaves m sids
      | Some s \<Rightarrow> rescind_slaves (rescind_each m (offers s)) sids)"

definition rescindOffers :: "Master \<Rightarrow> WeightInfo list \<Rightarrow> Abort + Master" where
  "rescindOffers m weightInfos =
     (case rescind_needed m weightInfos of
        Inl a \<Rightarrow> Inl a
      | Inr rescind \<Rightarrow>
          if rescind then Inr (rescind_slaves m (map slave_id (registered m)))
          else Inr m)"

subsection \<open>update and its continuation\<close>

text \<open>The loop of \<open>_update\<close> that stores the weights: \<open>weights[role] = weight\<close>.\<close>

fun store_weights :: "Master \<Rightarrow> WeightInfo list \<Rightarrow> Master" where
  "store_weights m [] = m"
| "store_weights m (w # ws) =
     store_weights (m\<lparr>weights := (weights m)(role w \<mapsto> weight w)\<rparr>) ws"

definition updateWeights :: "Master \<Rightarrow> WeightInfo list \<Rightarrow> Master" where
  "updateWeights m weightInfos =
     m\<lparr>allocator_calls := allocator_calls m @ [UpdateWeights weightInfos]\<rparr>"

text \<open>
  \<open>_update\<close>: the registry is written first (\<open>CHECK(result)\<close>), then the weights are
  stored, the allocator is notified, and the offers are rescinded.
\<close>

definition WeightsHandler__update :: "Env \<Rightarrow> Master \<Rightarrow> WeightInfo list \<Rightarrow> Abort + Response \<times> Master" where
  "WeightsHandler__update e m weightInfos =
     (if \<not> registrar_apply e weightInfos then Inl CheckFailed
      else
        (case rescindOffers (updateWeights (store_weights m weightInfos) weightInfos)
                weightInfos of
           Inl a \<Rightarrow> Inl a
         | Inr m' \<Rightarrow> Inr (OK, m')))"

text \<open>
  The validation loop of \<open>update\<close>. Each entry's role is trimmed and validated, looked
  up in the whitelist, and its weight compared with zero; the first entry that fails
  ends the request. The entries that pass are collected with their trimmed roles.
\<close>

fun validate_weights :: "Env \<Rightarrow> Master \<Rightarrow> WeightInfo list \<Rightarrow> BadReason + WeightInfo list" where
  "validate_weights e m [] = Inr []"
| "validate_weights e m (w # ws) =
     (let r = strings_trim e (role w) in
      case roles_validate e r of
        Some msg \<Rightarrow> Inl (InvalidRole r msg)
      | None \<Rightarrow>
          if \<not> isWhitelistedRole m r then Inl (UnknownRole r)
          else if le_zero (weight w) then Inl (InvalidWeight r (weight w))
          else (case validate_weights e m ws of
                  Inl bad \<Rightarrow> Inl bad
                | Inr validated \<Rightarrow> Inr (w\<lparr>role := r\<rparr> # validated)))"

text \<open>
  \<open>authorizeUpdateWeights\<close>: without an authorizer every request is authorized; with
  one, each role is asked for, and all must be granted. With no role at all a single
  request without an object is made.
\<close>

definition authorizeUpdateWeights :: "Env \<Rightarrow> string option \<Rightarrow> string list \<Rightarrow> bool" where
  "authorizeUpdateWeights e subject roles =
     (case authorizer e of
        None \<Rightarrow> True
      | Some authorized \<Rightarrow>
          (let request = \<lparr>auth_action = UPDATE_WEIGHT_WITH_ROLE, auth_subject = subject,
                          auth_object = None\<rparr>
           in if roles = [] then authorized request
              else list_all (\<lambda>r. authorized (request\<lparr>auth_object := Some r\<rparr>)) roles))"

definition WeightsHandler_update :: "Env \<Rightarrow> Master \<Rightarrow> Request \<Rightarrow> string option \<Rightarrow> Abort + Response \<times> Master" where
  "WeightsHandler_update e m request subject =
     (if request_method request \<noteq> ''PUT'' then Inl CheckFailed
      else
        (case json_parse e (request_body request) of
           Inl err \<Rightarrow> Inr (BadRequest (ParseFailed (request_body request) err), m)
         | Inr array \<Rightarrow>
             (case protobuf_parse e array of
                Inl err \<Rightarrow> Inr (BadRequest (ConvertFailed (request_body request) err), m)
              | Inr weightInfos \<Rightarrow>
                  (case validate_weights e m weightInfos of
                     Inl bad \<Rightarrow> Inr (BadRequest bad, m)
                   | Inr validated \<Rightarrow>
                       if \<not> authorizeUpdateWeights e subject (map role validated)
                       then Inr (Forbidden, m)
                       else WeightsHandler__update e m validated))))"

subsection \<open>Notions used in the statements\<close>

text \<open>
  The offers outstanding in a state are those held by its registered agents; an offer
  belongs to the role of the framework that owns it.
\<close>

definition outstanding :: "Master \<Rightarrow> Offer list" where
  "outstanding m = concat (map offers (registered m))"

definition offer_role :: "Master \<Rightarrow> Offer \<Rightarrow> string option" where
  "offer_role m offer = framework_role m (offer_framework_id offer)"

text \<open>
  The call and the message that the rescission of one offer produces.
\<close>

definition recover_call :: "Offer \<Rightarrow> AllocatorCall" where
  "recover_call offer = RecoverResources (offer_framework_id offer) (offer_slave_id offer) (offer_resources offer)"

definition rescind_message :: "Offer \<Rightarrow> Message" where
  "rescind_message offer = RescindResourceOfferMessage (offer_framework_id offer) (offer_id offer)"

text \<open>
  The table of agents is well formed when agent ids are unique and every offer held by
  an agent names that agent. The master keeps both: \<open>slaves.registered\<close> is keyed by
  agent id, and an offer is added to the agent it was made on.
\<close>

definition wf_slaves :: "Slave list \<Rightarrow> bool" where
  "wf_slaves regs =
     (distinct (map slave_id regs) \<and>
      (\<forall>s \<in> set regs. \<forall>offer \<in> set (offers s). offer_slave_id offer = slave_id s))"

text \<open>
  What the loops of \<open>rescindOffers\<close> compute, in closed form: an agent without the
  offers of a list that name it, the offers of the agent with a given id, and an agent
  with no offers left when its id is in a list.
\<close>

definition without_offers :: "Offer list \<Rightarrow> Slave \<Rightarrow> Slave" where
  "without_offers os s =
     s\<lparr>offers := filter (\<lambda>offer. \<not> (offer \<in> set os \<and> offer_slave_id offer = slave_id s)) (offers s)\<rparr>"

definition offers_at :: "Slave list \<Rightarrow> string \<Rightarrow> Offer list" where
  "offers_at regs sid = (case find (\<lambda>s. slave_id s = sid) regs of None \<Rightarrow> [] | Some s \<Rightarrow> offers s)"

definition clear_offers :: "string list \<Rightarrow> Slave \<Rightarrow> Slave" where
  "clear_offers sids s = (if slave_id s \<in> set sids then s\<lparr>offers := []\<rparr> else s)"

subsection \<open>An example state and example collaborators\<close>

text \<open>
  Collaborators for concrete inputs: a trim of blanks at both ends, a role validation
  that refuses the empty name, the names of one or two dots and a leading dash, a JSON
  parser that knows three request bodies, and the conversion of an array of objects with
  a role and a weight. No authorizer is configured and the registrar accepts.
\<close>

definition is_space :: "char \<Rightarrow> bool" where
  "is_space c = (c \<in> set '' '' \<or> c = CHR 0x09 \<or> c = CHR 0x0A \<or> c = CHR 0x0D)"

definition example_trim :: "string \<Rightarrow> string" where
  "example_trim s = rev (dropWhile is_space (rev (dropWhile is_space s)))"

definition example_validate :: "string \<Rightarrow> string option" where
  "example_validate r =
     (if r = [] then Some ''Empty role name is invalid''
      else if r = ''.'' \<or> r = ''..'' then Some ''Role name is invalid''
      else if hd r = CHR ''-'' then Some ''Role name cannot start with a dash''
      else None)"

fun example_convert_entry :: "JSON \<Rightarrow> string + WeightInfo" where
  "example_convert_entry (JObject [(k1, JString r), (k2, JNumber x)]) =
     (if k1 = ''role'' \<and> k2 = ''weight'' then Inr \<lparr>role = r, weight = x\<rparr>
      else Inl ''unexpected field'')"
| "example_convert_entry _ = Inl ''not a WeightInfo''"

fun example_convert :: "JSON list \<Rightarrow> string + WeightInfo list" where
  "example_convert [] = Inr []"
| "example_convert (j # js) =
     (case example_convert_entry j of
        Inl err \<Rightarrow> Inl err
      | Inr w \<Rightarrow> (case example_convert js of Inl err \<Rightarrow> Inl err | Inr ws \<Rightarrow> Inr (w # ws)))"

definition example_json_parse :: "string \<Rightarrow> string + JSON list" where
  "example_json_parse body =
     (if body = ''[{role: a, weight: 2}]''
      then Inr [JObject [(''role'', JString ''a''), (''weight'', JNumber (Finite 2))]]
      else if body = ''[{role: c, weight: 2}]''
      then Inr [JObject [(''role'', JString ''c''), (''weight'', JNumber (Finite 2))]]
      else if body = ''[{role: b, weight: 3}, {role: a, weight: 0}]''
      then Inr [JObject [(''role'', JString ''b''), (''weight'', JNumber (Finite 3))],
                JObject [(''role'', JString ''a''), (''weight'', JNumber (Finite 0))]]
      else Inl ''syntax error'')"

definition example_env :: Env where
  "example_env =
     \<lparr>json_parse = example_json_parse,
      protobuf_parse = example_convert,
      strings_trim = example_trim,
      roles_validate = example_validate,
      authorizer = None,
      registrar_apply = (\<lambda>_. True)\<rparr>"

text \<open>
  One agent holds two offers: one of framework f1 in role a, one of framework f2 in
  role b. Both roles have a registered framework; role c has none.
\<close>

definition offer_a :: Offer where
  "offer_a = \<lparr>offer_id = ''o1'', offer_framework_id = ''f1'', offer_slave_id = ''s1'',
              offer_resources = [(''cpus'', 2)]\<rparr>"

definition offer_b :: Offer where
  "offer_b = \<lparr>offer_id = ''o2'', offer_framework_id = ''f2'', offer_slave_id = ''s1'',
              offer_resources = [(''cpus'', 2)]\<rparr>"

definition example_master :: Master where
  "example_master =
     \<lparr>weights = Map.empty,
      activeRoles = {''a'', ''b''},
      registered = [\<lparr>slave_id = ''s1'', offers = [offer_a, offer_b]\<rparr>],
      framework_role = [''f1'' \<mapsto> ''a'', ''f2'' \<mapsto> ''b''],
      isWhitelistedRole = (\<lambda>_. True),
      allocator_calls = [],
      sent = []\<rparr>"

text \<open>
  The example state after the update of role a: the weight is stored, the agent holds no
  offer, and both offers have been handed back to the allocator and rescinded.
\<close>

definition example_master_after :: Master where
  "example_master_after =
     example_master
       \<lparr>weights := [''a'' \<mapsto> Finite 2],
        registered := [\<lparr>slave_id = ''s1'', offers = []\<rparr>],
        allocator_calls :=
          [UpdateWeights [\<lparr>role = ''a'', weight = Finite 2\<rparr>],
           RecoverResources ''f1'' ''s1'' [(''cpus'', 2)],
           RecoverResources ''f2'' ''s1'' [(''cpus'', 2)]],
        sent := [RescindResourceOfferMessage ''f1'' ''o1'',
                 RescindResourceOfferMessage ''f2'' ''o2'']\<rparr>"

text \<open>
  Three updates: of the active role a, of the role c without frameworks, and a request
  whose second entry has the weight zero.
\<close>

definition example_update :: "WeightInfo list" where
  "example_update = [\<lparr>role = ''a'', weight = Finite 2\<rparr>]"

definition inactive_update :: "WeightInfo list" where
  "inactive_update = [\<lparr>role = ''c'', weight = Finite 2\<rparr>]"

definition bad_request :: Request where
  "bad_request = \<lparr>request_method = ''PUT'',
                   request_body = ''[{role: b, weight: 3}, {role: a, weight: 0}]''\<rparr>"

section \<open>Task reconciliation\<close>

text \<open>
  The master answers a framework's reconciliation request from its record of tasks and
  agents. The code that does so (\<open>Master::reconcile\<close> in master.cpp) is not among the
  sources: only its tests are (tests/reconciliation_tests.cpp). The definitions of this
  section are therefore written from sections 3, 4.3 and 4.5 of the specification, each
  marked as such.
\<close>

text \<open>
  Modelled from the spec: the task states of section 4.3 (the task state enumeration is
  declared in mesos.proto, which is not among the sources). STAGING and RUNNING are not
  terminal; FINISHED, FAILED, KILLED, LOST and ERROR are, and so are DROPPED and
  UNREACHABLE.
\<close>

datatype TaskState =
  TASK_STAGING | TASK_RUNNING
| TASK_FINISHED | TASK_FAILED | TASK_KILLED | TASK_LOST | TASK_ERROR
| TASK_DROPPED | TASK_UNREACHABLE

fun terminal :: "TaskState \<Rightarrow> bool" where
  "terminal TASK_STAGING = False"
| "terminal TASK_RUNNING = False"
| "terminal _ = True"

text \<open>
  Modelled from the spec: the reason of a status update (section 4.5; the enumeration
  is declared in mesos.proto). A reply synthesized by reconciliation carries the reason
  RECONCILIATION, which sets it apart from the original delivery of an update.
\<close>

datatype Reason = ORIGINAL_DELIVERY | RECONCILIATION

text \<open>
  Modelled from the spec: a task of section 3 (the master's \<open>Task\<close> is declared in
  messages.proto and master.hpp, not among the sources), with its identity, owning
  framework, agent, current status, the identity of the last update applied, and whether
  that update has been acknowledged. The terminal flag of the spec is \<open>terminal\<close> of
  the status. The Task Ledger maps task identities to tasks; it is a list of tasks with
  distinct identities, looked up by \<open>get\<close>.
\<close>

record Task =
  task_id :: string
  task_framework_id :: string
  task_slave_id :: string
  task_state :: TaskState
  task_update_id :: nat
  task_acknowledged :: bool

type_synonym TaskLedger = "Task list"

text \<open>
  Modelled from the spec: \<open>get(taskId) -> status|unknown\<close> of section 4.3 (the
  master's task table is in master.hpp and master.cpp).
\<close>

definition get_task :: "TaskLedger \<Rightarrow> string \<Rightarrow> Task option" where
  "get_task ledger tid = find (\<lambda>t. task_id t = tid) ledger"

text \<open>
  Modelled from the spec: \<open>acknowledge(taskId, updateId) -> ok|unknown\<close> of section
  4.3 (\<open>Master::acknowledge\<close> is in master.cpp). An acknowledgement of the task's
  latest update marks it acknowledged; one for an unknown task or a superseded update
  changes nothing.
\<close>

datatype AckResult = AckOk | AckUnknown

definition acknowledge :: "TaskLedger \<Rightarrow> string \<Rightarrow> nat \<Rightarrow> AckResult \<times> TaskLedger" where
  "acknowledge ledger tid uid =
     (case get_task ledger tid of
        None \<Rightarrow> (AckUnknown, ledger)
      | Some t \<Rightarrow>
          if task_update_id t = uid
          then (AckOk, map (\<lambda>t'. if task_id t' = tid then t'\<lparr>task_acknowledged := True\<rparr> else t') ledger)
          else (AckUnknown, ledger))"

text \<open>
  Modelled from the spec: the status update sent to a framework (section 6,
  \<open>StatusUpdate\<close>; the message is declared in messages.proto), and the two updates that
  reconciliation sends: the ledger's state of a task, and LOST for a task it does not
  know.
\<close>

record StatusUpdate =
  update_task_id :: string
  update_slave_id :: "string option"
  update_state :: TaskState
  update_reason :: Reason

definition reconciliation_update :: "Task \<Rightarrow> StatusUpdate" where
  "reconciliation_update t =
     \<lparr>update_task_id = task_id t, update_slave_id = Some (task_slave_id t),
      update_state = task_state t, update_reason = RECONCILIATION\<rparr>"

definition lost_update :: "string \<Rightarrow> string option \<Rightarrow> StatusUpdate" where
  "lost_update tid sid =
     \<lparr>update_task_id = tid, update_slave_id = sid,
      update_state = TASK_LOST, update_reason = RECONCILIATION\<rparr>"

text \<open>
  Modelled from the spec: the implicit request of section 4.5 (the implicit branch of
  \<open>Master::reconcile\<close>, master.cpp). The reply holds the status of every task of the
  framework that is not terminal, and of every terminal task whose status has not been
  acknowledged.
\<close>

definition needs_reply :: "string \<Rightarrow> Task \<Rightarrow> bool" where
  "needs_reply fid t =
     (task_framework_id t = fid \<and> (\<not> terminal (task_state t) \<or> \<not> task_acknowledged t))"

definition reconcile_implicit :: "TaskLedger \<Rightarrow> string \<Rightarrow> StatusUpdate list" where
  "reconcile_implicit ledger fid = map reconciliation_update (filter (needs_reply fid) ledger)"

text \<open>
  The replies of a list that are about one task.
\<close>

definition replies_for :: "string \<Rightarrow> StatusUpdate list \<Rightarrow> StatusUpdate list" where
  "replies_for tid us = filter (\<lambda>u. update_task_id u = tid) us"

text \<open>
  Modelled from the spec: an agent of section 3 with its liveness, and whether it is in
  the transitional state of section 4.5, re-registering after a failover (the master's
  agent tables are in master.hpp).
\<close>

datatype Liveness = Registered | Unreachable | Removed

record Agent =
  agent_liveness :: Liveness
  agent_transitional :: bool

definition agent_registered :: "(string \<rightharpoonup> Agent) \<Rightarrow> string \<Rightarrow> bool" where
  "agent_registered agents sid =
     (case agents sid of None \<Rightarrow> False | Some a \<Rightarrow> agent_liveness a = Registered)"

definition agent_in_transition :: "(string \<rightharpoonup> Agent) \<Rightarrow> string \<Rightarrow> bool" where
  "agent_in_transition agents sid =
     (case agents sid of None \<Rightarrow> False | Some a \<Rightarrow> agent_transitional a)"

text \<open>
  Modelled from the spec: an entry of an explicit request (section 4.5): a task
  identity and optionally an agent identity. The tests also set a task state in each
  entry (\<open>status.set_state(TASK_STAGING); // Dummy value\<close>), so the entry carries the
  state the framework believes the task to be in.
\<close>

record ReconcileEntry =
  entry_task_id :: string
  entry_slave_id :: "string option"
  entry_state :: TaskState

text \<open>
  Modelled from the spec: the explicit request of section 4.5, for one entry (the
  explicit branch of \<open>Master::reconcile\<close>, master.cpp). A known task is answered with
  the ledger's status. An unknown task whose agent is unknown or not registered is
  answered LOST; an entry that names no agent claims no agent that the coordinator
  knows, and is answered LOST as the kill of an unknown task is. For an unknown task on a
  registered agent in transition the reply is withheld. For an unknown task on a
  registered agent that is not in transition the specification gives no rule: the
  resolution says so.
\<close>

datatype Resolution = Reply StatusUpdate | Withheld | Unspecified

definition resolve_explicit :: "TaskLedger \<Rightarrow> (string \<rightharpoonup> Agent) \<Rightarrow> ReconcileEntry \<Rightarrow> Resolution" where
  "resolve_explicit ledger agents e =
     (case get_task ledger (entry_task_id e) of
        Some t \<Rightarrow> Reply (reconciliation_update t)
      | None \<Rightarrow>
          (case entry_slave_id e of
             None \<Rightarrow> Reply (lost_update (entry_task_id e) None)
           | Some sid \<Rightarrow>
               if \<not> agent_registered agents sid
               then Reply (lost_update (entry_task_id e) (Some sid))
               else if agent_in_transition agents sid then Withheld
               else Unspecified))"

text \<open>
  Modelled from the spec: \<open>Reconcile(tasks)\<close> of section 6 (\<open>Master::reconcile\<close>,
  master.cpp): an empty list is the implicit request, any other list is resolved entry by
  entry. The ledger is read only.
\<close>

definition reconcile :: "TaskLedger \<Rightarrow> (string \<rightharpoonup> Agent) \<Rightarrow> string \<Rightarrow> ReconcileEntry list \<Rightarrow> Resolution list" where
  "reconcile ledger agents fid entries =
     (if entries = [] then map Reply (reconcile_implicit ledger fid)
      else map (resolve_explicit ledger agents) entries)"

text \<open>
  Modelled from the spec: the kill of a task the ledger does not know (section 4.5;
  \<open>Master::kill\<close> is in master.cpp) is answered LOST. The kill of a known task is not
  answered by reconciliation.
\<close>

definition kill_task :: "TaskLedger \<Rightarrow> string \<Rightarrow> StatusUpdate option" where
  "kill_task ledger tid =
     (case get_task ledger tid of
        None \<Rightarrow> Some (lost_update tid None)
      | Some t \<Rightarrow> None)"

subsection \<open>An example ledger\<close>

text \<open>
  Framework f1 has a running task, a finished task whose status is not acknowledged and
  a finished task whose status is; framework f2 has a running task. Agent s1 is
  registered, agent s2 is registered and in transition, agent s3 is unreachable.
\<close>

definition example_ledger :: TaskLedger where
  "example_ledger =
     [\<lparr>task_id = ''t1'', task_framework_id = ''f1'', task_slave_id = ''s1'',
       task_state = TASK_RUNNING, task_update_id = 1, task_acknowledged = True\<rparr>,
      \<lparr>task_id = ''t2'', task_framework_id = ''f1'', task_slave_id = ''s1'',
       task_state = TASK_FINISHED, task_update_id = 2, task_acknowledged = False\<rparr>,
      \<lparr>task_id = ''t3'', task_framework_id = ''f1'', task_slave_id = ''s1'',
       task_state = TASK_FINISHED, task_update_id = 2, task_acknowledged = True\<rparr>,
      \<lparr>task_id = ''t4'', task_framework_id = ''f2'', task_slave_id = ''s1'',
       task_state = TASK_RUNNING, task_update_id = 1, task_acknowledged = False\<rparr>]"

definition example_agents :: "string \<rightharpoonup> Agent" where
  "example_agents =
     [''s1'' \<mapsto> \<lparr>agent_liveness = Registered, agent_transitional = False\<rparr>,
      ''s2'' \<mapsto> \<lparr>agent_liveness = Registered, agent_transitional = True\<rparr>,
      ''s3'' \<mapsto> \<lparr>agent_liveness = Unreachable, agent_transitional = False\<rparr>]"

definition unknown_entry :: ReconcileEntry where
  "unknown_entry = \<lparr>entry_task_id = ''t9'', entry_slave_id = Some ''s3'', entry_state = TASK_STAGING\<rparr>"

definition known_entry :: ReconcileEntry where
  "known_entry = \<lparr>entry_task_id = ''t1'', entry_slave_id = Some ''s1'', entry_state = TASK_STAGING\<rparr>"

section \<open>Properties of the weights handler\<close>

subsection \<open>The inner loop\<close>

lemma without_offers_erase:
  "without_offers os (erase_offer a s) = without_offers (a # os) s"
proof (cases "slave_id s = offer_slave_id a")
  case True
  have "filter (\<lambda>o'. \<not> (o' \<in> set os \<and> offer_slave_id o' = slave_id s)) (removeAll a (offers s))
      = filter (\<lambda>o'. \<not> (o' \<in> set (a # os) \<and> offer_slave_id o' = slave_id s)) (offers s)"
    using True by (auto simp: removeAll_filter_not_eq intro: filter_cong)
  then show ?thesis using True by (simp add: without_offers_def erase_offer_def)
next
  case False
  have "filter (\<lambda>o'. \<not> (o' \<in> set os \<and> offer_slave_id o' = slave_id s)) (offers s)
      = filter (\<lambda>o'. \<not> (o' \<in> set (a # os) \<and> offer_slave_id o' = slave_id s)) (offers s)"
    using False by (auto intro: filter_cong)
  then show ?thesis using False by (simp add: without_offers_def erase_offer_def)
qed

lemma without_offers_Nil: "without_offers [] s = s"
  by (simp add: without_offers_def)

lemma rescind_each_registered:
  "registered (rescind_each m os) = map (without_offers os) (registered m)"
proof (induction os arbitrary: m)
  case Nil
  then show ?case by (simp add: without_offers_Nil)
next
  case (Cons a os)
  have "registered (removeOffer (recoverResources m a) a True) = map (erase_offer a) (registered m)"
    by (simp add: removeOffer_def recoverResources_def)
  then show ?case
    using Cons.IH[of "removeOffer (recoverResources m a) a True"]
    by (simp add: without_offers_erase comp_def)
qed

lemma rescind_each_calls:
  "allocator_calls (rescind_each m os) = allocator_calls m @ map recover_call os"
  by (induction os arbitrary: m) (simp_all add: removeOffer_def recoverResources_def recover_call_def)

lemma rescind_each_sent:
  "sent (rescind_each m os) = sent m @ map rescind_message os"
  by (induction os arbitrary: m) (simp_all add: removeOffer_def recoverResources_def rescind_message_def)

lemma rescind_each_frame:
  "weights (rescind_each m os) = weights m \<and> activeRoles (rescind_each m os) = activeRoles m
   \<and> framework_role (rescind_each m os) = framework_role m
   \<and> isWhitelistedRole (rescind_each m os) = isWhitelistedRole m"
  by (induction os arbitrary: m) (simp_all add: removeOffer_def recoverResources_def)

subsection \<open>The outer loop\<close>

lemma rescind_slaves_Cons:
  "rescind_slaves m (sid # sids) = rescind_slaves (rescind_each m (offers_at (registered m) sid)) sids"
  by (simp add: find_slave_def offers_at_def split: option.splits)

lemma offers_at_Nil: "offers_at [] sid = []"
  by (simp add: offers_at_def)

lemma offers_at_Cons:
  "offers_at (a # regs) sid = (if slave_id a = sid then offers a else offers_at regs sid)"
  by (simp add: offers_at_def)

lemma wf_slaves_Cons:
  "wf_slaves (a # regs) =
     (slave_id a \<notin> slave_id ` set regs \<and>
      (\<forall>offer \<in> set (offers a). offer_slave_id offer = slave_id a) \<and> wf_slaves regs)"
  unfolding wf_slaves_def by auto

lemma offers_at_member:
  assumes "distinct (map slave_id regs)" and "s \<in> set regs"
  shows "offers_at regs (slave_id s) = offers s"
  using assms
proof (induction regs)
  case Nil
  then show ?case by simp
next
  case (Cons a regs)
  show ?case
  proof (cases "a = s")
    case True
    then show ?thesis by (simp add: offers_at_Cons)
  next
    case False
    with Cons.prems have mem: "s \<in> set regs" and "slave_id a \<noteq> slave_id s"
      by auto
    then show ?thesis
      using Cons.IH Cons.prems(1) by (simp add: offers_at_Cons)
  qed
qed

lemma offers_at_slave_id:
  assumes "wf_slaves regs" and "offer \<in> set (offers_at regs sid)"
  shows "offer_slave_id offer = sid"
  using assms
proof (induction regs)
  case Nil
  then show ?case by (simp add: offers_at_Nil)
next
  case (Cons a regs)
  show ?case
  proof (cases "slave_id a = sid")
    case True
    with Cons.prems show ?thesis
      by (simp add: offers_at_Cons wf_slaves_Cons)
  next
    case False
    with Cons.prems have "wf_slaves regs" and "offer \<in> set (offers_at regs sid)"
      by (simp_all add: offers_at_Cons wf_slaves_Cons)
    then show ?thesis by (rule Cons.IH)
  qed
qed

lemma wf_slaves_member:
  assumes "wf_slaves regs" and "s \<in> set regs" and "offer \<in> set (offers s)"
  shows "offer_slave_id offer = slave_id s"
  using assms unfolding wf_slaves_def by blast

lemma without_offers_at:
  assumes "wf_slaves regs" and "s \<in> set regs"
  shows "without_offers (offers_at regs sid) s = clear_offers [sid] s"
proof (cases "slave_id s = sid")
  case True
  have d: "distinct (map slave_id regs)"
    using assms(1) unfolding wf_slaves_def by blast
  have eq: "offers_at regs sid = offers s"
    using offers_at_member[OF d assms(2)] True by simp
  have all: "\<forall>offer \<in> set (offers s). \<not> \<not> (offer \<in> set (offers s) \<and> offer_slave_id offer = slave_id s)"
    using wf_slaves_member[OF assms] by blast
  have "filter (\<lambda>offer. \<not> (offer \<in> set (offers s) \<and> offer_slave_id offer = slave_id s)) (offers s) = []"
    unfolding filter_empty_conv using all by blast
  then have "without_offers (offers s) s = s\<lparr>offers := []\<rparr>"
    unfolding without_offers_def by (rule arg_cong)
  moreover have "clear_offers [sid] s = s\<lparr>offers := []\<rparr>"
    using True by (simp add: clear_offers_def)
  ultimately show ?thesis
    unfolding eq by (rule trans[OF _ sym])
next
  case False
  have keep: "\<not> (offer \<in> set (offers_at regs sid) \<and> offer_slave_id offer = slave_id s)" for offer
    using offers_at_slave_id[OF assms(1), of offer sid] False by auto
  have "filter (\<lambda>offer. \<not> (offer \<in> set (offers_at regs sid) \<and> offer_slave_id offer = slave_id s)) (offers s) = offers s"
    unfolding filter_id_conv using keep by blast
  then have "without_offers (offers_at regs sid) s = s"
    unfolding without_offers_def by simp
  moreover have "clear_offers [sid] s = s"
    using False by (simp add: clear_offers_def)
  ultimately show ?thesis by simp
qed

lemma clear_offers_slave_id: "slave_id (clear_offers sids s) = slave_id s"
  by (simp add: clear_offers_def)

lemma clear_offers_offers: "offer \<in> set (offers (clear_offers sids s)) \<Longrightarrow> offer \<in> set (offers s)"
  by (simp add: clear_offers_def split: if_splits)

lemma wf_slaves_clear:
  assumes "wf_slaves regs"
  shows "wf_slaves (map (clear_offers sids) regs)"
  using assms
proof (induction regs)
  case Nil
  then show ?case by simp
next
  case (Cons a regs)
  have "slave_id ` set (map (clear_offers sids) regs) = slave_id ` set regs"
    by (simp add: image_image clear_offers_slave_id)
  moreover have "\<forall>offer \<in> set (offers (clear_offers sids a)). offer_slave_id offer = slave_id a"
    using Cons.prems clear_offers_offers[of _ sids a] unfolding wf_slaves_Cons by blast
  ultimately show ?case
    using Cons unfolding list.map wf_slaves_Cons by (simp add: clear_offers_slave_id)
qed

lemma offers_at_clear:
  assumes "sid' \<notin> set sids"
  shows "offers_at (map (clear_offers sids) regs) sid' = offers_at regs sid'"
proof (induction regs)
  case Nil
  then show ?case by simp
next
  case (Cons a regs)
  have "slave_id a = sid' \<Longrightarrow> clear_offers sids a = a"
    using assms by (simp add: clear_offers_def)
  with Cons show ?case
    by (simp add: offers_at_Cons clear_offers_slave_id)
qed

lemma clear_offers_Cons: "clear_offers sids (clear_offers [sid] s) = clear_offers (sid # sids) s"
  by (simp add: clear_offers_def)

lemma rescind_slaves_effect:
  assumes "wf_slaves (registered m)" and "distinct sids"
  shows "registered (rescind_slaves m sids) = map (clear_offers sids) (registered m)
       \<and> allocator_calls (rescind_slaves m sids) =
           allocator_calls m @ map recover_call (concat (map (offers_at (registered m)) sids))
       \<and> sent (rescind_slaves m sids) =
           sent m @ map rescind_message (concat (map (offers_at (registered m)) sids))"
  using assms
proof (induction sids arbitrary: m)
  case Nil
  then show ?case by (simp add: clear_offers_def)
next
  case (Cons sid sids)
  define m1 where "m1 = rescind_each m (offers_at (registered m) sid)"
  have reg1: "registered m1 = map (clear_offers [sid]) (registered m)"
    unfolding m1_def rescind_each_registered
    using without_offers_at[OF Cons.prems(1)] by simp
  have wf1: "wf_slaves (registered m1)"
    unfolding reg1 using Cons.prems(1) by (rule wf_slaves_clear)
  have same: "map (offers_at (registered m1)) sids = map (offers_at (registered m)) sids"
  proof (rule map_cong[OF refl])
    fix x assume "x \<in> set sids"
    then have "x \<notin> set [sid]" using Cons.prems(2) by auto
    then show "offers_at (registered m1) x = offers_at (registered m) x"
      unfolding reg1 by (rule offers_at_clear)
  qed
  have step: "rescind_slaves m (sid # sids) = rescind_slaves m1 sids"
    unfolding m1_def by (rule rescind_slaves_Cons)
  have ih: "registered (rescind_slaves m1 sids) = map (clear_offers sids) (registered m1)
       \<and> allocator_calls (rescind_slaves m1 sids) =
           allocator_calls m1 @ map recover_call (concat (map (offers_at (registered m1)) sids))
       \<and> sent (rescind_slaves m1 sids) =
           sent m1 @ map rescind_message (concat (map (offers_at (registered m1)) sids))"
    using Cons.IH[OF wf1] Cons.prems(2) by simp
  have calls1: "allocator_calls m1 = allocator_calls m @ map recover_call (offers_at (registered m) sid)"
    unfolding m1_def by (rule rescind_each_calls)
  have sent1: "sent m1 = sent m @ map rescind_message (offers_at (registered m) sid)"
    unfolding m1_def by (rule rescind_each_sent)
  have regs: "map (clear_offers sids) (registered m1) = map (clear_offers (sid # sids)) (registered m)"
    unfolding reg1 by (simp add: comp_def clear_offers_Cons)
  have cat: "concat (map (offers_at (registered m)) (sid # sids)) =
        offers_at (registered m) sid @ concat (map (offers_at (registered m1)) sids)"
    unfolding same by simp
  have r: "registered (rescind_slaves m1 sids) = map (clear_offers (sid # sids)) (registered m)"
    using ih regs by (rule_tac trans[of _ "map (clear_offers sids) (registered m1)"]) blast+
  have c: "allocator_calls (rescind_slaves m1 sids) =
      allocator_calls m @ map recover_call (concat (map (offers_at (registered m)) (sid # sids)))"
    using ih unfolding cat calls1 by auto
  have t: "sent (rescind_slaves m1 sids) =
      sent m @ map rescind_message (concat (map (offers_at (registered m)) (sid # sids)))"
    using ih unfolding cat sent1 by auto
  show ?case
    unfolding step using r c t by blast
qed

lemma rescind_slaves_frame:
  "weights (rescind_slaves m sids) = weights m \<and> activeRoles (rescind_slaves m sids) = activeRoles m
   \<and> framework_role (rescind_slaves m sids) = framework_role m
   \<and> isWhitelistedRole (rescind_slaves m sids) = isWhitelistedRole m"
  by (induction sids arbitrary: m) (simp_all add: rescind_each_frame split: option.splits)

lemma rescind_slaves_all:
  assumes "wf_slaves (registered m)"
  shows "registered (rescind_slaves m (map slave_id (registered m))) = map (\<lambda>s. s\<lparr>offers := []\<rparr>) (registered m)
       \<and> allocator_calls (rescind_slaves m (map slave_id (registered m))) =
           allocator_calls m @ map recover_call (concat (map offers (registered m)))
       \<and> sent (rescind_slaves m (map slave_id (registered m))) =
           sent m @ map rescind_message (concat (map offers (registered m)))"
proof -
  have d: "distinct (map slave_id (registered m))"
    using assms by (simp add: wf_slaves_def)
  have a: "map (offers_at (registered m)) (map slave_id (registered m)) = map offers (registered m)"
    using offers_at_member[OF d] by simp
  have b: "map (clear_offers (map slave_id (registered m))) (registered m) = map (\<lambda>s. s\<lparr>offers := []\<rparr>) (registered m)"
    by (simp add: clear_offers_def)
  note e = rescind_slaves_effect[OF assms d, unfolded a b]
  then show ?thesis .
qed

subsection \<open>The decision to rescind\<close>

lemma store_weights_frame:
  "activeRoles (store_weights m ws) = activeRoles m \<and> registered (store_weights m ws) = registered m
   \<and> framework_role (store_weights m ws) = framework_role m
   \<and> isWhitelistedRole (store_weights m ws) = isWhitelistedRole m
   \<and> allocator_calls (store_weights m ws) = allocator_calls m
   \<and> sent (store_weights m ws) = sent m"
  by (induction ws arbitrary: m) simp_all

lemma rescind_needed_cong:
  "isWhitelistedRole m' = isWhitelistedRole m \<Longrightarrow> activeRoles m' = activeRoles m \<Longrightarrow>
   rescind_needed m' ws = rescind_needed m ws"
  by (induction ws) simp_all

lemma rescind_needed_inactive:
  assumes "\<forall>w \<in> set ws. isWhitelistedRole m (role w)" and "\<forall>w \<in> set ws. role w \<notin> activeRoles m"
  shows "rescind_needed m ws = Inr False"
  using assms by (induction ws) simp_all

lemma rescind_needed_active:
  assumes "\<forall>w \<in> set ws. isWhitelistedRole m (role w)" and "\<exists>w \<in> set ws. role w \<in> activeRoles m"
  shows "rescind_needed m ws = Inr True"
  using assms by (induction ws) auto

subsection \<open>Updates of roles without frameworks\<close>

text \<open>
  Claim C8. When none of the updated roles has a registered framework, the update
  rescinds no offer: the registered agents and the offers each of them holds are the same
  after \<open>_update\<close> as before, no rescission is sent, and the only call made on the
  allocator is \<open>updateWeights\<close>. The registrar accepts the operation and the roles are
  on the whitelist, as \<open>update\<close> has checked before it continues in \<open>_update\<close>.
\<close>

theorem update_inactive_roles_keeps_offers:
  assumes "registrar_apply e ws"
    and "\<forall>w \<in> set ws. isWhitelistedRole m (role w)"
    and "\<forall>w \<in> set ws. role w \<notin> activeRoles m"
  shows "\<exists>m'. WeightsHandler__update e m ws = Inr (OK, m')
           \<and> registered m' = registered m
           \<and> sent m' = sent m
           \<and> allocator_calls m' = allocator_calls m @ [UpdateWeights ws]"
proof -
  let ?m2 = "updateWeights (store_weights m ws) ws"
  have "rescind_needed ?m2 ws = rescind_needed m ws"
    by (rule rescind_needed_cong) (simp_all add: updateWeights_def store_weights_frame)
  then have "rescindOffers ?m2 ws = Inr ?m2"
    using rescind_needed_inactive[OF assms(2,3)] by (simp add: rescindOffers_def)
  then show ?thesis
    using assms(1) by (simp add: WeightsHandler__update_def updateWeights_def store_weights_frame)
qed

text \<open>
  The theorem of claim C8 at the example state, for the update of role c.
\<close>

theorem update_inactive_roles_keeps_offers_witness:
  "registrar_apply example_env inactive_update
   \<and> isWhitelistedRole example_master ''c''
   \<and> ''c'' \<notin> activeRoles example_master
   \<and> (\<exists>m'. WeightsHandler__update example_env example_master inactive_update = Inr (OK, m')
         \<and> registered m' = [\<lparr>slave_id = ''s1'', offers = [offer_a, offer_b]\<rparr>]
         \<and> sent m' = []
         \<and> allocator_calls m' = [UpdateWeights inactive_update])"
proof -
  have h1: "registrar_apply example_env inactive_update"
    by (simp add: example_env_def)
  have h2: "\<forall>w \<in> set inactive_update. isWhitelistedRole example_master (role w)"
    by (simp add: inactive_update_def example_master_def)
  have h3: "\<forall>w \<in> set inactive_update. role w \<notin> activeRoles example_master"
    by (simp add: inactive_update_def example_master_def)
  have st: "registered example_master = [\<lparr>slave_id = ''s1'', offers = [offer_a, offer_b]\<rparr>]"
    "sent example_master = []" "allocator_calls example_master = []"
    "isWhitelistedRole example_master ''c''" "''c'' \<notin> activeRoles example_master"
    by (simp_all add: example_master_def)
  from update_inactive_roles_keeps_offers[OF h1 h2 h3]
  show ?thesis
    unfolding st using h1 st(4,5) by simp
qed

subsection \<open>Updates of a role with a framework\<close>

text \<open>
  Claim C1, as amended. When one of the updated roles has a registered framework, the
  update rescinds every offer outstanding on every registered agent, whichever role the
  owning framework has: afterwards no agent holds an offer, one \<open>recoverResources\<close>
  call per offer has been made on the allocator after \<open>updateWeights\<close> (with the
  offer's framework, agent and resources), and one rescission per offer has been sent.
\<close>

theorem update_active_role_rescinds_all_offers:
  assumes "registrar_apply e ws"
    and "\<forall>w \<in> set ws. isWhitelistedRole m (role w)"
    and "\<exists>w \<in> set ws. role w \<in> activeRoles m"
    and "wf_slaves (registered m)"
  shows "\<exists>m'. WeightsHandler__update e m ws = Inr (OK, m')
           \<and> registered m' = map (\<lambda>s. s\<lparr>offers := []\<rparr>) (registered m)
           \<and> outstanding m' = []
           \<and> allocator_calls m' =
               allocator_calls m @ UpdateWeights ws # map recover_call (outstanding m)
           \<and> sent m' = sent m @ map rescind_message (outstanding m)"
proof -
  let ?m2 = "updateWeights (store_weights m ws) ws"
  have reg2: "registered ?m2 = registered m" and sent2: "sent ?m2 = sent m"
    and calls2: "allocator_calls ?m2 = allocator_calls m @ [UpdateWeights ws]"
    by (simp_all add: updateWeights_def store_weights_frame)
  have "rescind_needed ?m2 ws = rescind_needed m ws"
    by (rule rescind_needed_cong) (simp_all add: updateWeights_def store_weights_frame)
  then have need: "rescind_needed ?m2 ws = Inr True"
    using rescind_needed_active[OF assms(2,3)] by simp
  let ?m3 = "rescind_slaves ?m2 (map slave_id (registered ?m2))"
  have res: "rescindOffers ?m2 ws = Inr ?m3"
    using need by (simp add: rescindOffers_def)
  have wf2: "wf_slaves (registered ?m2)"
    using assms(4) by (simp only: reg2)
  note eff = rescind_slaves_all[OF wf2, unfolded reg2 sent2 calls2]
  have out: "concat (map offers (map (\<lambda>s. s\<lparr>offers := []\<rparr>) (registered m))) = []"
    by (induction "registered m") simp_all
  have "WeightsHandler__update e m ws = Inr (OK, ?m3)"
    using assms(1) res by (simp add: WeightsHandler__update_def)
  moreover have "registered ?m3 = map (\<lambda>s. s\<lparr>offers := []\<rparr>) (registered m)"
    using eff by (simp only: reg2)
  moreover have "outstanding ?m3 = []"
    unfolding outstanding_def using eff out by (simp only: reg2)
  moreover have "allocator_calls ?m3 = allocator_calls m @ UpdateWeights ws # map recover_call (outstanding m)"
    unfolding outstanding_def using eff by (simp add: reg2)
  moreover have "sent ?m3 = sent m @ map rescind_message (outstanding m)"
    unfolding outstanding_def using eff by (simp add: reg2)
  ultimately show ?thesis by blast
qed

lemma wf_example: "wf_slaves (registered example_master)"
  by (simp add: wf_slaves_def example_master_def offer_a_def offer_b_def)

text \<open>
  The theorem of claim C1 at the example state, for the update of role a.
\<close>

theorem update_active_role_rescinds_all_offers_witness:
  "registrar_apply example_env example_update
   \<and> isWhitelistedRole example_master ''a''
   \<and> ''a'' \<in> activeRoles example_master
   \<and> wf_slaves (registered example_master)
   \<and> outstanding example_master = [offer_a, offer_b]
   \<and> (\<exists>m'. WeightsHandler__update example_env example_master example_update = Inr (OK, m')
         \<and> registered m' = [\<lparr>slave_id = ''s1'', offers = []\<rparr>]
         \<and> outstanding m' = []
         \<and> allocator_calls m' = [UpdateWeights example_update, recover_call offer_a, recover_call offer_b]
         \<and> sent m' = [rescind_message offer_a, rescind_message offer_b])"
proof -
  have h1: "registrar_apply example_env example_update"
    by (simp add: example_env_def)
  have h2: "\<forall>w \<in> set example_update. isWhitelistedRole example_master (role w)"
    by (simp add: example_update_def example_master_def)
  have h3: "\<exists>w \<in> set example_update. role w \<in> activeRoles example_master"
    by (simp add: example_update_def example_master_def)
  have out: "outstanding example_master = [offer_a, offer_b]"
    by (simp add: outstanding_def example_master_def)
  have reg: "map (\<lambda>s. s\<lparr>offers := []\<rparr>) (registered example_master) = [\<lparr>slave_id = ''s1'', offers = []\<rparr>]"
    by (simp add: example_master_def)
  have calls: "allocator_calls example_master = []" and sent0: "sent example_master = []"
    and w: "isWhitelistedRole example_master ''a''" and a: "''a'' \<in> activeRoles example_master"
    by (simp_all add: example_master_def)
  from update_active_role_rescinds_all_offers[OF h1 h2 h3 wf_example]
  show ?thesis
    unfolding out reg calls sent0 using h1 w a wf_example by simp
qed

text \<open>
  Claim C1 as stated fails: it says that only the offers of the updated role are
  rescinded and that offers of other roles stay. In the example only role a is updated,
  and the offer of framework f2, which belongs to role b, is outstanding before the
  update and gone after it.
\<close>

theorem weight_update_spares_other_roles_counterexample:
  "''a'' \<in> activeRoles example_master
   \<and> role ` set example_update = {''a''}
   \<and> offer_role example_master offer_b = Some ''b''
   \<and> offer_b \<in> set (outstanding example_master)
   \<and> WeightsHandler__update example_env example_master example_update
       = Inr (OK, example_master_after)
   \<and> offer_b \<notin> set (outstanding example_master_after)"
proof -
  have "WeightsHandler__update example_env example_master example_update
      = Inr (OK, example_master_after)"
    by (simp add: WeightsHandler__update_def example_env_def example_update_def example_master_def
        example_master_after_def updateWeights_def rescindOffers_def find_slave_def
        recoverResources_def removeOffer_def erase_offer_def offer_a_def offer_b_def)
  then show ?thesis
    by (simp add: outstanding_def offer_role_def example_master_def example_master_after_def
        example_update_def offer_b_def)
qed

subsection \<open>Rejected requests\<close>

lemma validate_weights_sound:
  assumes "validate_weights e m ws = Inr validated" and "w \<in> set ws"
  shows "\<not> le_zero (weight w) \<and> roles_validate e (strings_trim e (role w)) = None
         \<and> isWhitelistedRole m (strings_trim e (role w))"
  using assms
proof (induction ws arbitrary: validated)
  case Nil
  then show ?case by simp
next
  case (Cons a ws)
  from Cons.prems(1) obtain rest where
    head: "roles_validate e (strings_trim e (role a)) = None"
      "isWhitelistedRole m (strings_trim e (role a))" "\<not> le_zero (weight a)"
    and tail: "validate_weights e m ws = Inr rest"
    by (auto simp: Let_def split: option.splits if_splits sum.splits)
  show ?case
  proof (cases "w = a")
    case True
    with head show ?thesis by simp
  next
    case False
    with Cons.prems(2) have "w \<in> set ws" by simp
    with tail show ?thesis by (rule Cons.IH)
  qed
qed

text \<open>
  Claim C9. A PUT request whose body parses to a list of entries, one of which has a
  weight that is not above zero or a role that \<open>roles::validate\<close> refuses, is answered
  with \<open>BadRequest\<close>, and the master's state in the result is the state before the
  request: no weight is stored, for any entry of the batch, nothing is sent to the
  allocator, and nothing is left behind that would try the request again.
\<close>

theorem update_rejects_bad_entry:
  assumes "request_method request = ''PUT''"
    and "json_parse e (request_body request) = Inr array"
    and "protobuf_parse e array = Inr ws"
    and "w \<in> set ws"
    and "le_zero (weight w) \<or> roles_validate e (strings_trim e (role w)) \<noteq> None"
  shows "\<exists>reason. WeightsHandler_update e m request subject = Inr (BadRequest reason, m)"
proof (cases "validate_weights e m ws")
  case (Inl bad)
  with assms(1-3) show ?thesis
    by (simp add: WeightsHandler_update_def)
next
  case (Inr validated)
  from validate_weights_sound[OF Inr assms(4)] assms(5) show ?thesis
    by blast
qed

text \<open>
  The theorem of claim C9 at a request whose first entry is valid and whose second has
  the weight zero.
\<close>

theorem update_rejects_bad_entry_witness:
  "request_method bad_request = ''PUT''
   \<and> protobuf_parse example_env
       [JObject [(''role'', JString ''b''), (''weight'', JNumber (Finite 3))],
        JObject [(''role'', JString ''a''), (''weight'', JNumber (Finite 0))]]
       = Inr [\<lparr>role = ''b'', weight = Finite 3\<rparr>, \<lparr>role = ''a'', weight = Finite 0\<rparr>]
   \<and> le_zero (weight \<lparr>role = ''a'', weight = Finite 0\<rparr>)
   \<and> (\<exists>reason. WeightsHandler_update example_env example_master bad_request None
         = Inr (BadRequest reason, example_master))"
proof -
  have h1: "request_method bad_request = ''PUT''"
    by (simp add: bad_request_def)
  have h2: "json_parse example_env (request_body bad_request) =
      Inr [JObject [(''role'', JString ''b''), (''weight'', JNumber (Finite 3))],
           JObject [(''role'', JString ''a''), (''weight'', JNumber (Finite 0))]]"
    by (simp add: bad_request_def example_env_def example_json_parse_def)
  have h3: "protobuf_parse example_env
       [JObject [(''role'', JString ''b''), (''weight'', JNumber (Finite 3))],
        JObject [(''role'', JString ''a''), (''weight'', JNumber (Finite 0))]]
       = Inr [\<lparr>role = ''b'', weight = Finite 3\<rparr>, \<lparr>role = ''a'', weight = Finite 0\<rparr>]"
    by (simp add: example_env_def)
  have h4: "\<lparr>role = ''a'', weight = Finite 0\<rparr> \<in> set [\<lparr>role = ''b'', weight = Finite 3\<rparr>, \<lparr>role = ''a'', weight = Finite 0\<rparr>]"
    by simp
  have h5: "le_zero (weight \<lparr>role = ''a'', weight = Finite 0\<rparr>)
      \<or> roles_validate example_env (strings_trim example_env (role \<lparr>role = ''a'', weight = Finite 0\<rparr>)) \<noteq> None"
    by simp
  from update_rejects_bad_entry[OF h1 h2 h3 h4 h5, of example_master None] h1 h3
  show ?thesis by simp
qed

section \<open>Properties of reconciliation\<close>

lemma replies_for_implicit:
  "replies_for tid (reconcile_implicit ledger fid) =
     map reconciliation_update (filter (\<lambda>t. task_id t = tid \<and> needs_reply fid t) ledger)"
  by (induction ledger) (auto simp: replies_for_def reconcile_implicit_def reconciliation_update_def)

lemma filter_distinct_id:
  assumes "distinct (map task_id ledger)"
  shows "filter (\<lambda>t. task_id t = tid \<and> P t) ledger =
     (case get_task ledger tid of None \<Rightarrow> [] | Some t \<Rightarrow> if P t then [t] else [])"
  using assms
proof (induction ledger)
  case Nil
  then show ?case by (simp add: get_task_def)
next
  case (Cons a ledger)
  show ?case
  proof (cases "task_id a = tid")
    case True
    then have "\<forall>t \<in> set ledger. task_id t \<noteq> tid"
      using Cons.prems by (auto simp: image_iff)
    then have "filter (\<lambda>t. task_id t = tid \<and> P t) ledger = []"
      by (simp add: filter_empty_conv)
    then show ?thesis using True by (simp add: get_task_def)
  next
    case False
    then show ?thesis using Cons by (simp add: get_task_def)
  qed
qed

lemma implicit_exactly_once:
  assumes "distinct (map task_id ledger)"
  shows "replies_for tid (reconcile_implicit ledger fid) =
     (case get_task ledger tid of
        None \<Rightarrow> []
      | Some t \<Rightarrow> if needs_reply fid t then [reconciliation_update t] else [])"
  unfolding replies_for_implicit filter_distinct_id[OF assms]
  by (simp split: option.splits)

lemma acknowledge_ids:
  "map task_id (snd (acknowledge ledger tid uid)) = map task_id ledger"
  by (auto simp: acknowledge_def split: option.splits)

lemma get_task_map:
  assumes "\<And>t. task_id (f t) = task_id t"
  shows "get_task (map f ledger) tid = map_option f (get_task ledger tid)"
  using assms by (induction ledger) (simp_all add: get_task_def)

lemma get_task_id: "get_task ledger tid = Some t \<Longrightarrow> task_id t = tid"
  by (auto simp: get_task_def find_Some_iff)

lemma acknowledged_excluded:
  assumes "get_task ledger tid = Some t" and "terminal (task_state t)"
    and "acknowledge ledger tid (task_update_id t) = (r, ledger')"
    and "distinct (map task_id ledger)"
  shows "r = AckOk \<and> replies_for tid (reconcile_implicit ledger' fid) = []"
proof -
  let ?f = "\<lambda>t'. if task_id t' = tid then t'\<lparr>task_acknowledged := True\<rparr> else t'"
  have l': "ledger' = map ?f ledger" and r: "r = AckOk"
    using assms(1,3) by (simp_all add: acknowledge_def)
  have g: "get_task ledger' tid = Some (t\<lparr>task_acknowledged := True\<rparr>)"
    unfolding l' using get_task_map[of ?f ledger tid] assms(1) get_task_id[OF assms(1)] by simp
  have d: "distinct (map task_id ledger')"
    using assms(4) acknowledge_ids[of ledger tid "task_update_id t"] assms(3) by simp
  show ?thesis
    using r assms(2) by (simp add: implicit_exactly_once[OF d] g needs_reply_def)
qed

lemma implicit_reason:
  "u \<in> set (reconcile_implicit ledger fid) \<Longrightarrow> update_reason u = RECONCILIATION"
  by (auto simp: reconcile_implicit_def reconciliation_update_def)

text \<open>
  Claim C2. In a ledger with distinct task identities, the reply to an implicit request
  of a framework consists of updates with the reason RECONCILIATION, and holds for every
  task exactly one update, with the ledger's status, when the task is the framework's
  and is not terminal or is terminal and unacknowledged, and none otherwise: none for
  a terminal acknowledged task, none for a task the ledger does not know. The request
  leaves the ledger as it is, so this holds at every implicit request until the task is
  acknowledged; once the terminal status is acknowledged the reply has no update for the
  task. With no tasks the reply is empty.
\<close>

theorem implicit_reconciliation_replies:
  assumes "distinct (map task_id ledger)"
  shows "reconcile ledger agents fid [] = map Reply (reconcile_implicit ledger fid)
       \<and> (\<forall>u \<in> set (reconcile_implicit ledger fid). update_reason u = RECONCILIATION)
       \<and> replies_for tid (reconcile_implicit ledger fid) =
           (case get_task ledger tid of
              None \<Rightarrow> []
            | Some t \<Rightarrow>
                if task_framework_id t = fid \<and> (\<not> terminal (task_state t) \<or> \<not> task_acknowledged t)
                then [\<lparr>update_task_id = tid, update_slave_id = Some (task_slave_id t),
                       update_state = task_state t, update_reason = RECONCILIATION\<rparr>]
                else [])
       \<and> (\<forall>t r ledger'. get_task ledger tid = Some t \<and> terminal (task_state t)
             \<and> acknowledge ledger tid (task_update_id t) = (r, ledger')
             \<longrightarrow> r = AckOk \<and> replies_for tid (reconcile_implicit ledger' fid) = [])
       \<and> reconcile [] agents fid [] = []"
proof -
  have a: "reconcile ledger agents fid [] = map Reply (reconcile_implicit ledger fid)"
    and e: "reconcile [] agents fid [] = []"
    by (simp_all add: reconcile_def reconcile_implicit_def)
  have b: "\<forall>u \<in> set (reconcile_implicit ledger fid). update_reason u = RECONCILIATION"
    using implicit_reason by blast
  have c: "replies_for tid (reconcile_implicit ledger fid) =
           (case get_task ledger tid of
              None \<Rightarrow> []
            | Some t \<Rightarrow>
                if task_framework_id t = fid \<and> (\<not> terminal (task_state t) \<or> \<not> task_acknowledged t)
                then [\<lparr>update_task_id = tid, update_slave_id = Some (task_slave_id t),
                       update_state = task_state t, update_reason = RECONCILIATION\<rparr>]
                else [])"
    unfolding implicit_exactly_once[OF assms]
    by (auto simp: needs_reply_def reconciliation_update_def dest: get_task_id split: option.splits)
  have d: "\<forall>t r ledger'. get_task ledger tid = Some t \<and> terminal (task_state t)
             \<and> acknowledge ledger tid (task_update_id t) = (r, ledger')
             \<longrightarrow> r = AckOk \<and> replies_for tid (reconcile_implicit ledger' fid) = []"
    using acknowledged_excluded[OF _ _ _ assms] by blast
  from a b c d e show ?thesis by blast
qed

lemma example_ledger_distinct: "distinct (map task_id example_ledger)"
  by (simp add: example_ledger_def)

text \<open>
  The theorem of claim C2 at the example ledger, for framework f1 and its unacknowledged
  finished task.
\<close>

theorem implicit_reconciliation_replies_witness:
  "distinct (map task_id example_ledger)
   \<and> reconcile example_ledger example_agents ''f1'' [] =
       [Reply \<lparr>update_task_id = ''t1'', update_slave_id = Some ''s1'',
               update_state = TASK_RUNNING, update_reason = RECONCILIATION\<rparr>,
        Reply \<lparr>update_task_id = ''t2'', update_slave_id = Some ''s1'',
               update_state = TASK_FINISHED, update_reason = RECONCILIATION\<rparr>]
   \<and> replies_for ''t2'' (reconcile_implicit example_ledger ''f1'') =
       [\<lparr>update_task_id = ''t2'', update_slave_id = Some ''s1'',
         update_state = TASK_FINISHED, update_reason = RECONCILIATION\<rparr>]
   \<and> replies_for ''t2'' (reconcile_implicit (snd (acknowledge example_ledger ''t2'' 2)) ''f1'') = []"
proof -
  have g: "get_task example_ledger ''t2'' =
      Some \<lparr>task_id = ''t2'', task_framework_id = ''f1'', task_slave_id = ''s1'',
            task_state = TASK_FINISHED, task_update_id = 2, task_acknowledged = False\<rparr>"
    by (simp add: get_task_def example_ledger_def)
  have i: "reconcile_implicit example_ledger ''f1'' =
       [\<lparr>update_task_id = ''t1'', update_slave_id = Some ''s1'',
               update_state = TASK_RUNNING, update_reason = RECONCILIATION\<rparr>,
        \<lparr>update_task_id = ''t2'', update_slave_id = Some ''s1'',
               update_state = TASK_FINISHED, update_reason = RECONCILIATION\<rparr>]"
    by (simp add: reconcile_implicit_def example_ledger_def needs_reply_def reconciliation_update_def)
  note th = implicit_reconciliation_replies[OF example_ledger_distinct, of example_agents "''f1''" "''t2''"]
  note one = th[THEN conjunct1]
  have two: "replies_for ''t2'' (reconcile_implicit example_ledger ''f1'') =
       [\<lparr>update_task_id = ''t2'', update_slave_id = Some ''s1'',
         update_state = TASK_FINISHED, update_reason = RECONCILIATION\<rparr>]"
    using th[THEN conjunct2, THEN conjunct2, THEN conjunct1] unfolding g by simp
  note d = th[THEN conjunct2, THEN conjunct2, THEN conjunct2, THEN conjunct1, rule_format]
  let ?t2 = "\<lparr>task_id = ''t2'', task_framework_id = ''f1'', task_slave_id = ''s1'',
            task_state = TASK_FINISHED, task_update_id = 2, task_acknowledged = False\<rparr>"
  have pre: "get_task example_ledger ''t2'' = Some ?t2 \<and> terminal (task_state ?t2)
      \<and> acknowledge example_ledger ''t2'' (task_update_id ?t2) =
          (fst (acknowledge example_ledger ''t2'' 2), snd (acknowledge example_ledger ''t2'' 2))"
    using g by simp
  note three = d[OF pre, THEN conjunct2]
  show ?thesis
    using example_ledger_distinct one two three unfolding i by simp
qed

text \<open>
  Claim C3. Let a task be unknown to the ledger. In every explicit request, of any
  length, each entry that names the task and an agent that is unknown or not registered
  (or names no agent) is answered, at the entry's own position, with one update of state
  LOST and reason RECONCILIATION, and the request has as many answers as entries; so a
  request of one such entry is answered with exactly one such update. The kill of the
  task is answered with such an update as well. These answers are ordinary replies: the
  functions have no error result.
\<close>

theorem unknown_task_is_lost:
  assumes "get_task ledger tid = None"
  shows "(i < length entries \<and> entry_task_id (entries ! i) = tid
            \<and> (\<forall>sid. entry_slave_id (entries ! i) = Some sid \<longrightarrow> \<not> agent_registered agents sid)
            \<longrightarrow> length (reconcile ledger agents fid entries) = length entries
                \<and> reconcile ledger agents fid entries ! i =
                     Reply \<lparr>update_task_id = tid, update_slave_id = entry_slave_id (entries ! i),
                            update_state = TASK_LOST, update_reason = RECONCILIATION\<rparr>)
       \<and> (entry_task_id e = tid \<and> entry_slave_id e = Some sid \<and> \<not> agent_registered agents sid
            \<longrightarrow> reconcile ledger agents fid [e] =
                 [Reply \<lparr>update_task_id = tid, update_slave_id = Some sid,
                         update_state = TASK_LOST, update_reason = RECONCILIATION\<rparr>])
       \<and> kill_task ledger tid =
            Some \<lparr>update_task_id = tid, update_slave_id = None,
                  update_state = TASK_LOST, update_reason = RECONCILIATION\<rparr>"
proof -
  have lost: "resolve_explicit ledger agents x =
        Reply \<lparr>update_task_id = tid, update_slave_id = entry_slave_id x,
               update_state = TASK_LOST, update_reason = RECONCILIATION\<rparr>"
    if "entry_task_id x = tid"
      and "\<forall>sid. entry_slave_id x = Some sid \<longrightarrow> \<not> agent_registered agents sid" for x
    using that assms
    by (cases "entry_slave_id x") (simp_all add: resolve_explicit_def lost_update_def)
  have batch: "length (reconcile ledger agents fid entries) = length entries
        \<and> reconcile ledger agents fid entries ! i =
             Reply \<lparr>update_task_id = tid, update_slave_id = entry_slave_id (entries ! i),
                    update_state = TASK_LOST, update_reason = RECONCILIATION\<rparr>"
    if "i < length entries" and "entry_task_id (entries ! i) = tid"
      and "\<forall>sid. entry_slave_id (entries ! i) = Some sid \<longrightarrow> \<not> agent_registered agents sid"
  proof -
    from that(1) have "entries \<noteq> []" by auto
    then have "reconcile ledger agents fid entries = map (resolve_explicit ledger agents) entries"
      by (simp add: reconcile_def)
    with that(1) lost[OF that(2,3)] show ?thesis by simp
  qed
  have single: "reconcile ledger agents fid [e] =
        [Reply \<lparr>update_task_id = tid, update_slave_id = Some sid,
                update_state = TASK_LOST, update_reason = RECONCILIATION\<rparr>]"
    if "entry_task_id e = tid" and "entry_slave_id e = Some sid" and "\<not> agent_registered agents sid"
    using that lost[of e] by (simp add: reconcile_def)
  have kill: "kill_task ledger tid =
        Some \<lparr>update_task_id = tid, update_slave_id = None,
              update_state = TASK_LOST, update_reason = RECONCILIATION\<rparr>"
    using assms by (simp add: kill_task_def lost_update_def)
  from batch single kill show ?thesis by blast
qed

text \<open>
  The theorem of claim C3 at the example ledger, for a request of three entries: a known
  task, then an unknown task claimed on the unreachable agent s3, then the same unknown
  task with no agent named. The second and the third entry are each answered LOST at
  their own positions.
\<close>

theorem unknown_task_is_lost_witness:
  "get_task example_ledger ''t9'' = None
   \<and> \<not> agent_registered example_agents ''s3''
   \<and> reconcile example_ledger example_agents ''f1''
         [known_entry, unknown_entry, unknown_entry\<lparr>entry_slave_id := None\<rparr>] =
       [Reply \<lparr>update_task_id = ''t1'', update_slave_id = Some ''s1'',
               update_state = TASK_RUNNING, update_reason = RECONCILIATION\<rparr>,
        Reply \<lparr>update_task_id = ''t9'', update_slave_id = Some ''s3'',
               update_state = TASK_LOST, update_reason = RECONCILIATION\<rparr>,
        Reply \<lparr>update_task_id = ''t9'', update_slave_id = None,
               update_state = TASK_LOST, update_reason = RECONCILIATION\<rparr>]
   \<and> reconcile example_ledger example_agents ''f1'' [unknown_entry] =
       [Reply \<lparr>update_task_id = ''t9'', update_slave_id = Some ''s3'',
               update_state = TASK_LOST, update_reason = RECONCILIATION\<rparr>]
   \<and> kill_task example_ledger ''t9'' =
       Some \<lparr>update_task_id = ''t9'', update_slave_id = None,
             update_state = TASK_LOST, update_reason = RECONCILIATION\<rparr>"
proof -
  let ?entries = "[known_entry, unknown_entry, unknown_entry\<lparr>entry_slave_id := None\<rparr>]"
  let ?r = "reconcile example_ledger example_agents ''f1'' ?entries"
  have h: "get_task example_ledger ''t9'' = None"
    by (simp add: get_task_def example_ledger_def)
  have n: "\<not> agent_registered example_agents ''s3''"
    by (simp add: agent_registered_def example_agents_def)
  have e: "entry_task_id unknown_entry = ''t9''" "entry_slave_id unknown_entry = Some ''s3''"
    by (simp_all add: unknown_entry_def)
  note th1 = unknown_task_is_lost[OF h, of 1 ?entries example_agents "''f1''" unknown_entry "''s3''"]
  note th2 = unknown_task_is_lost[OF h, of 2 ?entries example_agents "''f1''" unknown_entry "''s3''"]
  have len: "length ?r = 3"
    and r1: "?r ! 1 = Reply \<lparr>update_task_id = ''t9'', update_slave_id = Some ''s3'',
               update_state = TASK_LOST, update_reason = RECONCILIATION\<rparr>"
    using th1 n e by simp_all
  have r2: "?r ! 2 = Reply \<lparr>update_task_id = ''t9'', update_slave_id = None,
               update_state = TASK_LOST, update_reason = RECONCILIATION\<rparr>"
    using th2 e by simp
  have r0: "?r ! 0 = Reply \<lparr>update_task_id = ''t1'', update_slave_id = Some ''s1'',
               update_state = TASK_RUNNING, update_reason = RECONCILIATION\<rparr>"
    by (simp add: reconcile_def resolve_explicit_def get_task_def example_ledger_def
        known_entry_def reconciliation_update_def)
  have whole: "?r =
       [Reply \<lparr>update_task_id = ''t1'', update_slave_id = Some ''s1'',
               update_state = TASK_RUNNING, update_reason = RECONCILIATION\<rparr>,
        Reply \<lparr>update_task_id = ''t9'', update_slave_id = Some ''s3'',
               update_state = TASK_LOST, update_reason = RECONCILIATION\<rparr>,
        Reply \<lparr>update_task_id = ''t9'', update_slave_id = None,
               update_state = TASK_LOST, update_reason = RECONCILIATION\<rparr>]"
  proof (rule nth_equalityI)
    show "length ?r = length
       [Reply \<lparr>update_task_id = ''t1'', update_slave_id = Some ''s1'',
               update_state = TASK_RUNNING, update_reason = RECONCILIATION\<rparr>,
        Reply \<lparr>update_task_id = ''t9'', update_slave_id = Some ''s3'',
               update_state = TASK_LOST, update_reason = RECONCILIATION\<rparr>,
        Reply \<lparr>update_task_id = ''t9'', update_slave_id = None,
               update_state = TASK_LOST, update_reason = RECONCILIATION\<rparr>]"
      using len by simp
  next
    fix k assume "k < length ?r"
    then have "k = 0 \<or> k = 1 \<or> k = 2" using len by auto
    then show "?r ! k =
       [Reply \<lparr>update_task_id = ''t1'', update_slave_id = Some ''s1'',
               update_state = TASK_RUNNING, update_reason = RECONCILIATION\<rparr>,
        Reply \<lparr>update_task_id = ''t9'', update_slave_id = Some ''s3'',
               update_state = TASK_LOST, update_reason = RECONCILIATION\<rparr>,
        Reply \<lparr>update_task_id = ''t9'', update_slave_id = None,
               update_state = TASK_LOST, update_reason = RECONCILIATION\<rparr>] ! k"
      using r0 r1 r2 by auto
  qed
  have single: "reconcile example_ledger example_agents ''f1'' [unknown_entry] =
       [Reply \<lparr>update_task_id = ''t9'', update_slave_id = Some ''s3'',
               update_state = TASK_LOST, update_reason = RECONCILIATION\<rparr>]"
    using th1 n e by simp
  have kill: "kill_task example_ledger ''t9'' =
       Some \<lparr>update_task_id = ''t9'', update_slave_id = None,
             update_state = TASK_LOST, update_reason = RECONCILIATION\<rparr>"
    using th1 by simp
  from h n whole single kill show ?thesis by simp
qed

text \<open>
  Claim C4. An entry of an explicit request that names a task of the ledger is answered
  with the ledger's status of the task and the reason RECONCILIATION; the answer is the
  same whatever state the entry claims, and it is among the answers to any request that
  holds the entry.
\<close>

theorem known_task_authoritative_state:
  assumes "get_task ledger (entry_task_id e) = Some t"
  shows "resolve_explicit ledger agents e =
           Reply \<lparr>update_task_id = entry_task_id e, update_slave_id = Some (task_slave_id t),
                  update_state = task_state t, update_reason = RECONCILIATION\<rparr>
       \<and> resolve_explicit ledger agents (e\<lparr>entry_state := claimed\<rparr>) = resolve_explicit ledger agents e
       \<and> (e \<in> set entries \<longrightarrow>
            Reply \<lparr>update_task_id = entry_task_id e, update_slave_id = Some (task_slave_id t),
                   update_state = task_state t, update_reason = RECONCILIATION\<rparr>
              \<in> set (reconcile ledger agents fid entries))"
proof -
  have r: "resolve_explicit ledger agents e =
           Reply \<lparr>update_task_id = entry_task_id e, update_slave_id = Some (task_slave_id t),
                  update_state = task_state t, update_reason = RECONCILIATION\<rparr>"
    using assms get_task_id[OF assms]
    by (simp add: resolve_explicit_def reconciliation_update_def)
  have s: "resolve_explicit ledger agents (e\<lparr>entry_state := claimed\<rparr>) = resolve_explicit ledger agents e"
    using assms by (simp add: resolve_explicit_def)
  have "e \<in> set entries \<Longrightarrow> resolve_explicit ledger agents e \<in> set (reconcile ledger agents fid entries)"
    by (auto simp: reconcile_def)
  with r s show ?thesis by simp
qed

text \<open>
  The theorem of claim C4 at the example ledger: the running task t1, claimed as staging
  and as running.
\<close>

theorem known_task_authoritative_state_witness:
  "get_task example_ledger (entry_task_id known_entry) =
       Some \<lparr>task_id = ''t1'', task_framework_id = ''f1'', task_slave_id = ''s1'',
             task_state = TASK_RUNNING, task_update_id = 1, task_acknowledged = True\<rparr>
   \<and> resolve_explicit example_ledger example_agents known_entry =
       Reply \<lparr>update_task_id = ''t1'', update_slave_id = Some ''s1'',
              update_state = TASK_RUNNING, update_reason = RECONCILIATION\<rparr>
   \<and> resolve_explicit example_ledger example_agents (known_entry\<lparr>entry_state := TASK_RUNNING\<rparr>) =
       resolve_explicit example_ledger example_agents known_entry
   \<and> Reply \<lparr>update_task_id = ''t1'', update_slave_id = Some ''s1'',
              update_state = TASK_RUNNING, update_reason = RECONCILIATION\<rparr>
       \<in> set (reconcile example_ledger example_agents ''f1'' [unknown_entry, known_entry])"
proof -
  have h: "get_task example_ledger (entry_task_id known_entry) =
       Some \<lparr>task_id = ''t1'', task_framework_id = ''f1'', task_slave_id = ''s1'',
             task_state = TASK_RUNNING, task_update_id = 1, task_acknowledged = True\<rparr>"
    by (simp add: get_task_def example_ledger_def known_entry_def)
  have m: "known_entry \<in> set [unknown_entry, known_entry]"
    by simp
  have i: "entry_task_id known_entry = ''t1''"
    by (simp add: known_entry_def)
  from known_task_authoritative_state[OF h, of example_agents TASK_RUNNING "[unknown_entry, known_entry]" "''f1''"] h m
  show ?thesis unfolding i by simp
qed

end
